theory Spec2Isabelle
  imports Main "HOL-Library.Word"
begin

section \<open>Text typed by the user\<close>

text \<open>
  A JavaScript string is a sequence of UTF-16 code units. What the user types into a search
  box is kept as such, so that \<open>trim\<close> sees what the browser's
  \<open>String.prototype.trim\<close> sees. \<open>utf16\<close> gives the code units of an
  ASCII text. The texts the source itself writes (messages, identifiers, paths) are ASCII
  and stay of type \<open>string\<close>.
\<close>

type_synonym js_string = "16 word list"

definition utf16 :: "string \<Rightarrow> js_string" where
  "utf16 s = map (\<lambda>c. of_nat (of_char c)) s"

text \<open>
  The code units \<open>trim\<close> strips from both ends: the white space of ECMAScript
  (tab, vertical tab, form feed, space, no-break space U+00A0, the byte order mark U+FEFF
  and the other space separators of Unicode: U+1680, U+2000 to U+200A, U+202F, U+205F,
  U+3000) and its line terminators (line feed, carriage return, U+2028, U+2029). All of
  them are single code units.
\<close>

definition is_space :: "16 word \<Rightarrow> bool" where
  "is_space c =
     (c \<in> set [0x0009, 0x000A, 0x000B, 0x000C, 0x000D, 0x0020, 0x00A0, 0x1680,
        0x2000, 0x2001, 0x2002, 0x2003, 0x2004, 0x2005, 0x2006, 0x2007, 0x2008, 0x2009,
        0x200A, 0x2028, 0x2029, 0x202F, 0x205F, 0x3000, 0xFEFF])"

definition trim :: "js_string \<Rightarrow> js_string" where
  "trim s = rev (dropWhile is_space (rev (dropWhile is_space s)))"

text \<open>\<open>searchQuery.trim()\<close> as a condition: a string is truthy when it is not empty.\<close>

definition searching :: "js_string \<Rightarrow> bool" where
  "searching q = (trim q \<noteq> [])"

section \<open>Session data cache (DataProvider, src/src/main.tsx)\<close>

text \<open>
  The provider keeps three collections, a loading flag, the time of the last successful
  fetch (\<open>number | null\<close>) and an initialisation flag in React state. Times are
  the integers \<open>Date.now()\<close> returns (milliseconds since the epoch). Calls of
  \<open>console.error\<close> are kept in \<open>consoleErrors\<close>, so that what the code
  reports, and where, is part of the model.
\<close>

record ('c, 't, 'r) data_state =
  clients :: "'c list"
  templates :: "'t list"
  reminders :: "'r list"
  loading :: bool
  lastFetchTime :: "int option"
  isInitialized :: bool
  consoleErrors :: "string list"

text \<open>The initial values of the \<open>useState\<close> calls of \<open>DataProvider\<close>.\<close>

definition initial_data :: "('c, 't, 'r) data_state" where
  "initial_data =
     \<lparr>clients = [], templates = [], reminders = [], loading = True,
      lastFetchTime = None, isInitialized = False, consoleErrors = []\<rparr>"

text \<open>\<open>const CACHE_DURATION = 5 * 60 * 1000\<close>.\<close>

definition CACHE_DURATION :: int where
  "CACHE_DURATION = 5 * 60 * 1000"

text \<open>
  JavaScript's \<open>!lastFetchTime\<close> on a \<open>number | null\<close>: true for
  \<open>null\<close> and for the number 0.
\<close>

fun falsy_time :: "int option \<Rightarrow> bool" where
  "falsy_time None = True"
| "falsy_time (Some t) = (t = 0)"

text \<open>
  \<open>isStale(maxAge = CACHE_DURATION)\<close>; the first argument is the value of
  \<open>Date.now()\<close> at the call.
\<close>

definition isStale_with :: "int \<Rightarrow> int \<Rightarrow> ('c, 't, 'r) data_state \<Rightarrow> bool" where
  "isStale_with now maxAge s =
     (if falsy_time (lastFetchTime s) then True
      else now - the (lastFetchTime s) > maxAge)"

definition isStale :: "int \<Rightarrow> ('c, 't, 'r) data_state \<Rightarrow> bool" where
  "isStale now s = isStale_with now CACHE_DURATION s"

text \<open>\<open>invalidateCache\<close>: \<open>setLastFetchTime(null)\<close>.\<close>

definition invalidateCache :: "('c, 't, 'r) data_state \<Rightarrow> ('c, 't, 'r) data_state" where
  "invalidateCache s = s\<lparr>lastFetchTime := None\<rparr>"

subsection \<open>Backend responses\<close>

text \<open>
  A collection endpoint answers with a JSON array, or with a JSON object that may carry
  the entities under the key of its kind (\<open>templates\<close>, \<open>clients\<close>), a
  \<open>total\<close> and a \<open>hasMore\<close>; each of the three may be missing. The
  reminders endpoint answers with an array. An API call that throws is \<open>Inl\<close>
  of the error's message; the messages logged are given without their pictographs.
\<close>

datatype 'a payload =
    Bare "'a list"
  | Paged (p_items: "'a list option") (p_total: "nat option") (p_hasMore: "bool option")

type_synonym 'a fetched = "string + 'a"

text \<open>
  \<open>Array.isArray(data) ? data : (data.templates || [])\<close>, as \<open>loadAllData\<close>
  and the single-collection refreshes normalise a response.
\<close>

fun all_items :: "'a payload \<Rightarrow> 'a list" where
  "all_items (Bare xs) = xs"
| "all_items (Paged None _ _) = []"
| "all_items (Paged (Some xs) _ _) = xs"

subsection \<open>loadAllData\<close>

text \<open>
  The state setters an invocation calls, in the order it calls them. Running them one
  after the other gives every state the invocation passes through.
\<close>

datatype ('c, 't, 'r) setter =
    SetLoading bool
  | SetTemplates "'t list"
  | SetClients "'c list"
  | SetReminders "'r list"
  | SetLastFetchTime "int option"
  | ConsoleError string

fun apply_setter :: "('c, 't, 'r) data_state \<Rightarrow> ('c, 't, 'r) setter \<Rightarrow> ('c, 't, 'r) data_state" where
  "apply_setter s (SetLoading b) = s\<lparr>loading := b\<rparr>"
| "apply_setter s (SetTemplates xs) = s\<lparr>templates := xs\<rparr>"
| "apply_setter s (SetClients xs) = s\<lparr>clients := xs\<rparr>"
| "apply_setter s (SetReminders xs) = s\<lparr>reminders := xs\<rparr>"
| "apply_setter s (SetLastFetchTime t) = s\<lparr>lastFetchTime := t\<rparr>"
| "apply_setter s (ConsoleError m) = s\<lparr>consoleErrors := consoleErrors s @ [m]\<rparr>"

fun states_through :: "('c, 't, 'r) data_state \<Rightarrow> ('c, 't, 'r) setter list \<Rightarrow> ('c, 't, 'r) data_state list" where
  "states_through s [] = [s]"
| "states_through s (a # as) = s # states_through (apply_setter s a) as"

text \<open>
  \<open>Promise.all\<close> of the three fetches, in the array's order (templates, clients,
  reminders): it rejects as soon as one of them rejects. The model takes the rejection of
  the first one in array order.
\<close>

fun promise_all3 :: "'t payload fetched \<Rightarrow> 'c payload fetched \<Rightarrow> 'r list fetched
    \<Rightarrow> ('t payload \<times> 'c payload \<times> 'r list) fetched" where
  "promise_all3 (Inl e) _ _ = Inl e"
| "promise_all3 (Inr _) (Inl e) _ = Inl e"
| "promise_all3 (Inr _) (Inr _) (Inl e) = Inl e"
| "promise_all3 (Inr t) (Inr c) (Inr r) = Inr (t, c, r)"

text \<open>
  The setters of one invocation of \<open>loadAllData\<close>: \<open>user\<close> is whether
  \<open>getCurrentUser()\<close> returns a user, the three outcomes are those of the API
  calls, \<open>now\<close> is \<open>Date.now()\<close> when they have all returned. The part
  after the \<open>await\<close> is the success branch or the \<open>catch\<close>, followed
  by the \<open>finally\<close>.
\<close>

definition loadAllData_after_await :: "'t payload fetched \<Rightarrow> 'c payload fetched
    \<Rightarrow> 'r list fetched \<Rightarrow> int \<Rightarrow> ('c, 't, 'r) setter list" where
  "loadAllData_after_await templatesData clientsData remindersData now =
     (case promise_all3 templatesData clientsData remindersData of
        Inr (t, c, r) \<Rightarrow>
          [SetTemplates (all_items t), SetClients (all_items c), SetReminders r,
           SetLastFetchTime (Some now)]
      | Inl e \<Rightarrow> [ConsoleError (''Failed to load data: '' @ e)])
     @ [SetLoading False]"

definition loadAllData_setters :: "bool \<Rightarrow> 't payload fetched \<Rightarrow> 'c payload fetched
    \<Rightarrow> 'r list fetched \<Rightarrow> int \<Rightarrow> ('c, 't, 'r) setter list" where
  "loadAllData_setters user templatesData clientsData remindersData now =
     (if \<not> user then [SetLoading False]
      else SetLoading True #
        loadAllData_after_await templatesData clientsData remindersData now)"

text \<open>
  How the promise an \<open>async\<close> function returns settles, as its caller sees it.
\<close>

datatype settled = Fulfilled | Rejected string

text \<open>
  \<open>loadAllData\<close>: the \<open>try\<close> covers the whole body and the \<open>catch\<close>
  does not rethrow, so the promise is fulfilled on every path.
\<close>

definition loadAllData :: "bool \<Rightarrow> 't payload fetched \<Rightarrow> 'c payload fetched
    \<Rightarrow> 'r list fetched \<Rightarrow> int \<Rightarrow> ('c, 't, 'r) data_state
    \<Rightarrow> settled \<times> ('c, 't, 'r) data_state" where
  "loadAllData user templatesData clientsData remindersData now s =
     (Fulfilled,
      last (states_through s (loadAllData_setters user templatesData clientsData remindersData now)))"

text \<open>
  The single-collection refresh of the templates: one fetch, normalised as above; on
  success the collection and the fetch time are replaced, on failure the error goes to the
  console and nothing else changes. The promise is fulfilled either way.
\<close>

definition refreshTemplates :: "'t payload fetched \<Rightarrow> int \<Rightarrow> ('c, 't, 'r) data_state
    \<Rightarrow> ('c, 't, 'r) data_state" where
  "refreshTemplates data now s =
     (case data of
        Inr d \<Rightarrow> s\<lparr>templates := all_items d, lastFetchTime := Some now\<rparr>
      | Inl e \<Rightarrow> s\<lparr>consoleErrors := consoleErrors s @ [''Failed to refresh templates: '' @ e]\<rparr>)"

section \<open>Templates list (src/src/components/Templates.tsx)\<close>

text \<open>
  The component's React state and refs. The fields carry the source's names behind the
  prefix \<open>tpl_\<close>; \<open>tpl_hasInitialized\<close> and \<open>tpl_searchTimeoutRef\<close> are
  the \<open>.current\<close> of the two refs, a timer handle being the positive integer
  \<open>setTimeout\<close> returns. \<open>tpl_apiCalls\<close> lists the calls of
  \<open>api.getCaseTemplates\<close> made so far with their arguments, and
  \<open>tpl_consoleErrors\<close> the calls of \<open>console.error\<close>.
\<close>

record api_call =
  arg_limit :: nat
  arg_offset :: nat
  arg_search :: "js_string option"

record 't templates_view =
  tpl_templates :: "'t list"
  tpl_loading :: bool
  tpl_loadingMore :: bool
  tpl_hasMore :: bool
  tpl_total :: nat
  tpl_offset :: nat
  tpl_searchQuery :: js_string
  tpl_hasInitialized :: bool
  tpl_searchTimeoutRef :: "nat option"
  tpl_apiCalls :: "api_call list"
  tpl_consoleErrors :: "string list"

definition initial_view :: "'t templates_view" where
  "initial_view =
     \<lparr>tpl_templates = [], tpl_loading = True, tpl_loadingMore = False, tpl_hasMore = False,
      tpl_total = 0, tpl_offset = 0, tpl_searchQuery = [], tpl_hasInitialized = False,
      tpl_searchTimeoutRef = None, tpl_apiCalls = [], tpl_consoleErrors = []\<rparr>"

definition LIMIT :: nat where
  "LIMIT = 25"

text \<open>\<open>xs.slice(a, b)\<close> for indices \<open>0 \<le> a \<le> b\<close>.\<close>

definition slice :: "'a list \<Rightarrow> nat \<Rightarrow> nat \<Rightarrow> 'a list" where
  "slice xs a b = take (b - a) (drop a xs)"

text \<open>\<open>data.total || 0\<close> and \<open>data.hasMore || false\<close>.\<close>

fun or_zero :: "nat option \<Rightarrow> nat" where
  "or_zero None = 0"
| "or_zero (Some n) = n"

fun or_false :: "bool option \<Rightarrow> bool" where
  "or_false None = False"
| "or_false (Some b) = b"

text \<open>
  The slice of the cache that the initial load, the resynchronisation, the cleared search
  and the debounced callback with a blank term all install: \<open>setTemplates\<close>,
  \<open>setTotal\<close>, \<open>setHasMore\<close>, \<open>setOffset\<close>.
\<close>

definition firstPageFromCache :: "'t list \<Rightarrow> 't templates_view \<Rightarrow> 't templates_view" where
  "firstPageFromCache cachedTemplates v =
     (let initialTemplates = slice cachedTemplates 0 LIMIT
      in v\<lparr>tpl_templates := initialTemplates,
           tpl_total := length cachedTemplates,
           tpl_hasMore := (length cachedTemplates > LIMIT),
           tpl_offset := length initialTemplates\<rparr>)"

text \<open>
  \<open>loadTemplatesFromAPI(reset, searchTerm)\<close> is asynchronous. Its part before the
  \<open>await\<close> sets the flags and makes the call with \<open>currentOffset\<close>; its part
  after the \<open>await\<close> handles the outcome of the call: a thrown error is logged, a
  response with a \<open>templates\<close> array is adopted (replacing or appending), a bare
  array replaces the list, any other object changes nothing; the \<open>finally\<close> clears
  both flags.
\<close>

definition loadTemplatesFromAPI_call :: "bool \<Rightarrow> js_string option \<Rightarrow> 't templates_view
    \<Rightarrow> 't templates_view" where
  "loadTemplatesFromAPI_call reset searchTerm v =
     (let currentOffset = (if reset then 0 else tpl_offset v);
          v1 = (if reset then v\<lparr>tpl_loading := True, tpl_offset := 0\<rparr>
                else v\<lparr>tpl_loadingMore := True\<rparr>)
      in v1\<lparr>tpl_apiCalls := tpl_apiCalls v1 @
             [\<lparr>arg_limit = LIMIT, arg_offset = currentOffset, arg_search = searchTerm\<rparr>]\<rparr>)"

definition loadTemplatesFromAPI_settle :: "bool \<Rightarrow> nat \<Rightarrow> 't payload fetched
    \<Rightarrow> 't templates_view \<Rightarrow> 't templates_view" where
  "loadTemplatesFromAPI_settle reset currentOffset data v =
     (let v1 =
        (case data of
           Inl e \<Rightarrow> v\<lparr>tpl_consoleErrors := tpl_consoleErrors v @ [''Failed to load templates: '' @ e]\<rparr>
         | Inr (Paged (Some ts) tot hm) \<Rightarrow>
             v\<lparr>tpl_templates := (if reset then ts else tpl_templates v @ ts),
               tpl_hasMore := or_false hm,
               tpl_total := or_zero tot,
               tpl_offset := currentOffset + length ts,
               tpl_hasInitialized := True\<rparr>
         | Inr (Bare ts) \<Rightarrow>
             v\<lparr>tpl_templates := ts,
               tpl_hasMore := False,
               tpl_total := length ts,
               tpl_offset := length ts,
               tpl_hasInitialized := True\<rparr>
         | Inr (Paged None tot hm) \<Rightarrow> v\<lparr>tpl_hasInitialized := True\<rparr>)
      in v1\<lparr>tpl_loading := False, tpl_loadingMore := False\<rparr>)"

definition loadTemplatesFromAPI :: "bool \<Rightarrow> js_string option \<Rightarrow> 't payload fetched
    \<Rightarrow> 't templates_view \<Rightarrow> 't templates_view" where
  "loadTemplatesFromAPI reset searchTerm data v =
     loadTemplatesFromAPI_settle reset (if reset then 0 else tpl_offset v) data
       (loadTemplatesFromAPI_call reset searchTerm v)"

text \<open>
  The effect that runs once on mount. With a non-empty cache it pages locally; with an
  empty cache it makes one API call, whose outcome is \<open>data\<close>, and marks the view
  initialised without waiting for it.
\<close>

definition initialLoadEffect :: "'t list \<Rightarrow> 't payload fetched \<Rightarrow> 't templates_view
    \<Rightarrow> 't templates_view" where
  "initialLoadEffect cachedTemplates data v =
     (if tpl_hasInitialized v then v
      else if searching (tpl_searchQuery v) then v
      else if length cachedTemplates > 0 then
        (firstPageFromCache cachedTemplates v)\<lparr>tpl_loading := False, tpl_hasInitialized := True\<rparr>
      else
        loadTemplatesFromAPI_settle True 0 data
          ((loadTemplatesFromAPI_call True None v)\<lparr>tpl_hasInitialized := True\<rparr>))"

text \<open>The body of the effect that follows the cache (\<open>cachedTemplates.length\<close>).\<close>

definition cacheResyncEffect :: "'t list \<Rightarrow> 't templates_view \<Rightarrow> 't templates_view" where
  "cacheResyncEffect cachedTemplates v =
     (if \<not> tpl_hasInitialized v then v
      else if searching (tpl_searchQuery v) then v
      else if length cachedTemplates > 0 \<and> length cachedTemplates \<noteq> tpl_total v then
        firstPageFromCache cachedTemplates v
      else v)"

text \<open>
  \<open>handleLoadMore\<close>; \<open>data\<close> is the outcome of the API call it makes when a
  search is active.
\<close>

definition handleLoadMore :: "'t list \<Rightarrow> 't payload fetched \<Rightarrow> 't templates_view
    \<Rightarrow> 't templates_view" where
  "handleLoadMore cachedTemplates data v =
     (if searching (tpl_searchQuery v) then
        loadTemplatesFromAPI False (Some (trim (tpl_searchQuery v))) data v
      else
        (let nextTemplates = slice cachedTemplates (tpl_offset v) (tpl_offset v + LIMIT)
         in if length nextTemplates > 0 then
              v\<lparr>tpl_templates := tpl_templates v @ nextTemplates,
                tpl_offset := tpl_offset v + length nextTemplates,
                tpl_hasMore := (tpl_offset v + length nextTemplates < length cachedTemplates)\<rparr>
            else v))"

text \<open>
  \<open>handleLoadMore\<close> called \<open>k\<close> times in a row on the same cache;
  \<open>data\<close> stands for the outcome of the API calls made when a search is active.
\<close>

fun loadMoreTimes :: "nat \<Rightarrow> 't list \<Rightarrow> 't payload fetched \<Rightarrow> 't templates_view
    \<Rightarrow> 't templates_view" where
  "loadMoreTimes 0 cachedTemplates data v = v"
| "loadMoreTimes (Suc k) cachedTemplates data v =
     handleLoadMore cachedTemplates data (loadMoreTimes k cachedTemplates data v)"

text \<open>
  The view after the initial load and \<open>k\<close> further calls of
  \<open>handleLoadMore\<close>.
\<close>

definition afterPages :: "nat \<Rightarrow> 't list \<Rightarrow> 't payload fetched \<Rightarrow> 't payload fetched
    \<Rightarrow> 't templates_view \<Rightarrow> 't templates_view" where
  "afterPages k cachedTemplates data0 data v =
     loadMoreTimes k cachedTemplates data (initialLoadEffect cachedTemplates data0 v)"

text \<open>
  The window of a view that pages through the cache: no search is active, and the list is
  the first \<open>tpl_offset\<close> items of the cache.
\<close>

definition cache_window :: "'t list \<Rightarrow> 't templates_view \<Rightarrow> bool" where
  "cache_window cachedTemplates v =
     (\<not> searching (tpl_searchQuery v)
      \<and> tpl_offset v \<le> length cachedTemplates
      \<and> tpl_templates v = take (tpl_offset v) cachedTemplates
      \<and> tpl_total v = length cachedTemplates
      \<and> tpl_hasMore v = (tpl_offset v < length cachedTemplates))"

subsection \<open>The request behind a call (src/src/utils/api.ts)\<close>

text \<open>
  \<open>api.getCaseTemplates\<close> is declared without parameters: the arguments a caller
  passes are dropped, and the request is a \<open>fetch\<close> of
  \<open>`${API_URL}/case-templates`\<close> with the default method and no query string.
\<close>

record http_request =
  req_method :: string
  req_url :: string

definition getCaseTemplates_request :: "string \<Rightarrow> api_call \<Rightarrow> http_request" where
  "getCaseTemplates_request API_URL args =
     \<lparr>req_method = ''GET'', req_url = API_URL @ ''/case-templates''\<rparr>"

subsection \<open>Debounced search\<close>













subsection \<open>After a mutation\<close>

text \<open>
  \<open>confirmDelete\<close> and the two \<open>onSuccess\<close> handlers of the create and edit
  dialogs end alike: \<open>await refreshTemplates()\<close>, then
  \<open>hasInitialized.current = false\<close>. The refreshed cache reaches the view with the
  next render; the effect that follows the cache has the dependencies
  \<open>[cachedTemplates.length, total, searchQuery]\<close>, so of a refresh it sees only a
  changed length. The render may come before or after the handler clears the flag; both
  orders are modelled.
\<close>

datatype render_order = FlagClearedFirst | EffectFirst

definition rerenderWithCache :: "'t list \<Rightarrow> 't list \<Rightarrow> 't templates_view \<Rightarrow> 't templates_view" where
  "rerenderWithCache oldCache newCache v =
     (if length newCache \<noteq> length oldCache then cacheResyncEffect newCache v else v)"

definition onMutationCommitted :: "render_order \<Rightarrow> 't payload fetched \<Rightarrow> int
    \<Rightarrow> ('c, 't, 'r) data_state \<times> 't templates_view
    \<Rightarrow> ('c, 't, 'r) data_state \<times> 't templates_view" where
  "onMutationCommitted order data now sv =
     (let s = fst sv; v = snd sv;
          s' = refreshTemplates data now s
      in (s',
          (case order of
             FlagClearedFirst \<Rightarrow>
               rerenderWithCache (templates s) (templates s') (v\<lparr>tpl_hasInitialized := False\<rparr>)
           | EffectFirst \<Rightarrow>
               (rerenderWithCache (templates s) (templates s') v)\<lparr>tpl_hasInitialized := False\<rparr>)))"

section \<open>Clients list (the Clients component, second part of src/README.md)\<close>

text \<open>
  The component's React state, the fields behind the prefix \<open>cl_\<close>, with the
  calls of \<open>api.getClients\<close> and of \<open>console.error\<close> made so far.
  \<open>cl_timers\<close> holds the due times of the timers pending for the debounced
  reload.
\<close>

record 'c clients_view =
  cl_clients :: "'c list"
  cl_loading :: bool
  cl_loadingMore :: bool
  cl_hasMore :: bool
  cl_total :: nat
  cl_offset :: nat
  cl_searchQuery :: js_string
  cl_apiCalls :: "api_call list"
  cl_consoleErrors :: "string list"
  cl_timers :: "nat list"

text \<open>The initial values of the component's \<open>useState\<close> calls.\<close>

definition initial_clients :: "'c clients_view" where
  "initial_clients =
     \<lparr>cl_clients = [], cl_loading = True, cl_loadingMore = False, cl_hasMore = False,
      cl_total = 0, cl_offset = 0, cl_searchQuery = [], cl_apiCalls = [],
      cl_consoleErrors = [], cl_timers = []\<rparr>"

text \<open>
  \<open>loadClients(reset)\<close>, split at its \<open>await\<close> like
  \<open>loadTemplatesFromAPI\<close>; the search term is
  \<open>searchQuery.trim() || undefined\<close>.
\<close>

definition loadClients_call :: "bool \<Rightarrow> 'c clients_view \<Rightarrow> 'c clients_view" where
  "loadClients_call reset v =
     (let currentOffset = (if reset then 0 else cl_offset v);
          searchTerm = (if searching (cl_searchQuery v) then Some (trim (cl_searchQuery v)) else None);
          v1 = (if reset then v\<lparr>cl_loading := True, cl_offset := 0\<rparr>
                else v\<lparr>cl_loadingMore := True\<rparr>)
      in v1\<lparr>cl_apiCalls := cl_apiCalls v1 @
             [\<lparr>arg_limit = LIMIT, arg_offset = currentOffset, arg_search = searchTerm\<rparr>]\<rparr>)"

definition loadClients_settle :: "bool \<Rightarrow> nat \<Rightarrow> 'c payload fetched
    \<Rightarrow> 'c clients_view \<Rightarrow> 'c clients_view" where
  "loadClients_settle reset currentOffset data v =
     (let v1 =
        (case data of
           Inl e \<Rightarrow> v\<lparr>cl_consoleErrors := cl_consoleErrors v @ [''Failed to load clients: '' @ e]\<rparr>
         | Inr (Paged (Some cs) tot hm) \<Rightarrow>
             v\<lparr>cl_clients := (if reset then cs else cl_clients v @ cs),
               cl_hasMore := or_false hm,
               cl_total := or_zero tot,
               cl_offset := currentOffset + length cs\<rparr>
         | Inr (Bare cs) \<Rightarrow>
             v\<lparr>cl_clients := cs,
               cl_hasMore := False,
               cl_total := length cs,
               cl_offset := length cs\<rparr>
         | Inr (Paged None tot hm) \<Rightarrow> v)
      in v1\<lparr>cl_loading := False, cl_loadingMore := False\<rparr>)"

definition loadClients :: "bool \<Rightarrow> 'c payload fetched \<Rightarrow> 'c clients_view \<Rightarrow> 'c clients_view" where
  "loadClients reset data v =
     loadClients_settle reset (if reset then 0 else cl_offset v) data (loadClients_call reset v)"

subsection \<open>The search input of the Clients list\<close>

text \<open>
  The identifiers the \<open>onChange\<close> handler of the search input can see, innermost
  scope first: its own parameter and constant, the declarations of the component, the
  imports of the module, and the globals of the browser that the component uses. Reading
  an identifier that no scope declares throws a \<open>ReferenceError\<close>.
\<close>

datatype js_error = ReferenceError string

definition onChange_locals :: "string list" where
  "onChange_locals = [''e'', ''value'']"

definition Clients_locals :: "string list" where
  "Clients_locals =
     [''clients'', ''setClients'', ''loading'', ''setLoading'', ''loadingMore'',
      ''setLoadingMore'', ''hasMore'', ''setHasMore'', ''total'', ''setTotal'', ''offset'',
      ''setOffset'', ''LIMIT'', ''showCreateModal'', ''setShowCreateModal'',
      ''selectedClient'', ''setSelectedClient'', ''deleteConfirm'', ''setDeleteConfirm'',
      ''searchQuery'', ''setSearchQuery'', ''forceUpdate'', ''loadClients'',
      ''handleLoadMore'', ''handleDeleteClient'', ''confirmDelete'', ''filteredClients'']"

definition Clients_imports :: "string list" where
  "Clients_imports =
     [''useState'', ''useEffect'', ''useRef'', ''Plus'', ''Users'', ''Trash2'', ''Search'',
      ''X'', ''api'', ''Client'', ''CreateClientModal'', ''ClientDetailsModal'',
      ''ConfirmDialog'', ''showToast'', ''t'', ''SkeletonClientCard'']"

definition browser_globals :: "string list" where
  "browser_globals =
     [''window'', ''document'', ''console'', ''Date'', ''Array'', ''setTimeout'',
      ''clearTimeout'']"

definition Clients_onChange_scope :: "string list" where
  "Clients_onChange_scope = onChange_locals @ Clients_locals @ Clients_imports @ browser_globals"

definition resolve :: "string list \<Rightarrow> string \<Rightarrow> js_error option" where
  "resolve scope name = (if name \<in> set scope then None else Some (ReferenceError name))"

text \<open>
  The handler: \<open>setSearchQuery(value)\<close>, then the test of
  \<open>searchTimeoutRef.current\<close>, then the timer for \<open>loadClients(true)\<close>
  500 ms ahead. \<open>cl_timers\<close> holds the due times of the timers set for the
  debounced reload, \<open>now\<close> is the time of the event. The result is the error
  thrown, if any, and the view.
\<close>

definition Clients_onChange :: "js_string \<Rightarrow> nat \<Rightarrow> 'c clients_view
    \<Rightarrow> js_error option \<times> 'c clients_view" where
  "Clients_onChange value now v =
     (let v1 = v\<lparr>cl_searchQuery := value\<rparr>
      in case resolve Clients_onChange_scope ''searchTimeoutRef'' of
           Some err \<Rightarrow> (Some err, v1)
         | None \<Rightarrow> (None, v1\<lparr>cl_timers := [now + 500]\<rparr>))"

text \<open>A run of keystrokes, each with its time; an error thrown ends one handler only.\<close>

fun Clients_typing :: "(js_string \<times> nat) list \<Rightarrow> 'c clients_view \<Rightarrow> 'c clients_view" where
  "Clients_typing [] v = v"
| "Clients_typing ((value, now) # rest) v = Clients_typing rest (snd (Clients_onChange value now v))"

text \<open>
  The cleanup of the language-change effect, run on unmount: it removes the listener and
  then reads \<open>searchTimeoutRef.current\<close> to clear the timer.
\<close>

definition Clients_cleanup_scope :: "string list" where
  "Clients_cleanup_scope =
     [''handleLanguageChange''] @ Clients_locals @ Clients_imports @ browser_globals"

definition Clients_unmountCleanup :: "'c clients_view \<Rightarrow> js_error option \<times> 'c clients_view" where
  "Clients_unmountCleanup v =
     (case resolve Clients_cleanup_scope ''searchTimeoutRef'' of
        Some err \<Rightarrow> (Some err, v)
      | None \<Rightarrow> (None, v\<lparr>cl_timers := []\<rparr>))"

section \<open>The provider over time\<close>

text \<open>
  \<open>loadAllData\<close> is asynchronous: between its start and the return of the three
  fetches other events happen. \<open>prov_inFlight\<close> counts the invocations that have
  issued their fetches and not yet finished, \<open>prov_fetchSuccesses\<close> the fetches
  (of all data or of one collection) that have succeeded so far.
\<close>

record ('c, 't, 'r) provider =
  prov_data :: "('c, 't, 'r) data_state"
  prov_inFlight :: nat
  prov_fetchSuccesses :: nat

definition initial_provider :: "('c, 't, 'r) provider" where
  "initial_provider = \<lparr>prov_data = initial_data, prov_inFlight = 0, prov_fetchSuccesses = 0\<rparr>"

definition loadAllData_begin :: "bool \<Rightarrow> ('c, 't, 'r) provider \<Rightarrow> ('c, 't, 'r) provider" where
  "loadAllData_begin user p =
     (if \<not> user then p\<lparr>prov_data := apply_setter (prov_data p) (SetLoading False)\<rparr>
      else p\<lparr>prov_data := apply_setter (prov_data p) (SetLoading True),
             prov_inFlight := Suc (prov_inFlight p)\<rparr>)"

definition loadAllData_end :: "'t payload fetched \<Rightarrow> 'c payload fetched \<Rightarrow> 'r list fetched
    \<Rightarrow> int \<Rightarrow> ('c, 't, 'r) provider \<Rightarrow> ('c, 't, 'r) provider" where
  "loadAllData_end templatesData clientsData remindersData now p =
     (if prov_inFlight p = 0 then p
      else p\<lparr>prov_data := foldl apply_setter (prov_data p)
                (loadAllData_after_await templatesData clientsData remindersData now),
             prov_inFlight := prov_inFlight p - 1,
             prov_fetchSuccesses :=
               (if isl (promise_all3 templatesData clientsData remindersData)
                then prov_fetchSuccesses p else Suc (prov_fetchSuccesses p))\<rparr>)"

text \<open>The other two single-collection refreshes.\<close>

definition refreshClients :: "'c payload fetched \<Rightarrow> int \<Rightarrow> ('c, 't, 'r) data_state
    \<Rightarrow> ('c, 't, 'r) data_state" where
  "refreshClients data now s =
     (case data of
        Inr d \<Rightarrow> s\<lparr>clients := all_items d, lastFetchTime := Some now\<rparr>
      | Inl e \<Rightarrow> s\<lparr>consoleErrors := consoleErrors s @ [''Failed to refresh clients: '' @ e]\<rparr>)"

definition refreshReminders :: "'r list fetched \<Rightarrow> int \<Rightarrow> ('c, 't, 'r) data_state
    \<Rightarrow> ('c, 't, 'r) data_state" where
  "refreshReminders data now s =
     (case data of
        Inr d \<Rightarrow> s\<lparr>reminders := d, lastFetchTime := Some now\<rparr>
      | Inl e \<Rightarrow> s\<lparr>consoleErrors := consoleErrors s @ [''Failed to refresh reminders: '' @ e]\<rparr>)"

text \<open>
  The auto-refresh effect returns early unless the provider is initialised and the fetch
  time is truthy; otherwise it registers the one-minute interval. The effect depends on
  both values, so after every render the interval exists exactly in that case.
\<close>

definition autoRefreshRegistered :: "('c, 't, 'r) data_state \<Rightarrow> bool" where
  "autoRefreshRegistered s = (\<not> (\<not> isInitialized s \<or> falsy_time (lastFetchTime s)))"

text \<open>The callback of that interval; without the interval nothing runs.\<close>

definition autoRefreshTick :: "bool \<Rightarrow> int \<Rightarrow> ('c, 't, 'r) provider \<Rightarrow> ('c, 't, 'r) provider" where
  "autoRefreshTick user now p =
     (if autoRefreshRegistered (prov_data p) then
        (if isStale now (prov_data p) then loadAllData_begin user p else p)
      else p)"

text \<open>
  \<open>checkUser\<close> of the initial-load effect, called on mount and every second until
  the provider is initialised.
\<close>

definition checkUser :: "bool \<Rightarrow> ('c, 't, 'r) provider \<Rightarrow> ('c, 't, 'r) provider" where
  "checkUser user p =
     (if isInitialized (prov_data p) then p
      else if user then
        (let p1 = loadAllData_begin user p
         in p1\<lparr>prov_data := (prov_data p1)\<lparr>isInitialized := True\<rparr>\<rparr>)
      else p)"

definition refreshAll :: "bool \<Rightarrow> ('c, 't, 'r) provider \<Rightarrow> ('c, 't, 'r) provider" where
  "refreshAll user p = loadAllData_begin user p"

datatype ('c, 't, 'r) event =
    CheckUser bool
  | IntervalTick bool int
  | RefreshAll bool
  | LoadAllSettled "'t payload fetched" "'c payload fetched" "'r list fetched" int
  | TemplatesRefreshed "'t payload fetched" int
  | ClientsRefreshed "'c payload fetched" int
  | RemindersRefreshed "'r list fetched" int
  | InvalidateCache

fun counts_success :: "'a fetched \<Rightarrow> nat \<Rightarrow> nat" where
  "counts_success (Inl e) n = n"
| "counts_success (Inr d) n = Suc n"

fun step :: "('c, 't, 'r) provider \<Rightarrow> ('c, 't, 'r) event \<Rightarrow> ('c, 't, 'r) provider" where
  "step p (CheckUser user) = checkUser user p"
| "step p (IntervalTick user now) = autoRefreshTick user now p"
| "step p (RefreshAll user) = refreshAll user p"
| "step p (LoadAllSettled td cd rd now) = loadAllData_end td cd rd now p"
| "step p (TemplatesRefreshed d now) =
     p\<lparr>prov_data := refreshTemplates d now (prov_data p),
       prov_fetchSuccesses := counts_success d (prov_fetchSuccesses p)\<rparr>"
| "step p (ClientsRefreshed d now) =
     p\<lparr>prov_data := refreshClients d now (prov_data p),
       prov_fetchSuccesses := counts_success d (prov_fetchSuccesses p)\<rparr>"
| "step p (RemindersRefreshed d now) =
     p\<lparr>prov_data := refreshReminders d now (prov_data p),
       prov_fetchSuccesses := counts_success d (prov_fetchSuccesses p)\<rparr>"
| "step p InvalidateCache = p\<lparr>prov_data := invalidateCache (prov_data p)\<rparr>"

definition run :: "('c, 't, 'r) event list \<Rightarrow> ('c, 't, 'r) provider \<Rightarrow> ('c, 't, 'r) provider" where
  "run es p = foldl step p es"

text \<open>The events that happen by themselves: the two intervals of the provider.\<close>

fun background :: "('c, 't, 'r) event \<Rightarrow> bool" where
  "background (CheckUser user) = True"
| "background (IntervalTick user now) = True"
| "background _ = False"

text \<open>The events that bring a successful fetch to the provider.\<close>

fun successful_fetch :: "('c, 't, 'r) event \<Rightarrow> bool" where
  "successful_fetch (LoadAllSettled td cd rd now) = (\<not> isl (promise_all3 td cd rd))"
| "successful_fetch (TemplatesRefreshed d now) = (\<not> isl d)"
| "successful_fetch (ClientsRefreshed d now) = (\<not> isl d)"
| "successful_fetch (RemindersRefreshed d now) = (\<not> isl d)"
| "successful_fetch _ = False"

fun interval_tick :: "('c, 't, 'r) event \<Rightarrow> bool" where
  "interval_tick (IntervalTick user now) = True"
| "interval_tick _ = False"

text \<open>
  The events that come from an explicit call: \<open>refreshAll\<close>, and the return of
  the fetch of \<open>refreshTemplates\<close>, \<open>refreshClients\<close> or
  \<open>refreshReminders\<close>.
\<close>

fun explicit_call :: "('c, 't, 'r) event \<Rightarrow> bool" where
  "explicit_call (RefreshAll user) = True"
| "explicit_call (TemplatesRefreshed d now) = True"
| "explicit_call (ClientsRefreshed d now) = True"
| "explicit_call (RemindersRefreshed d now) = True"
| "explicit_call _ = False"

text \<open>
  A fetch time is recorded only after a fetch has succeeded.
\<close>

definition fetched_before :: "('c, 't, 'r) provider \<Rightarrow> bool" where
  "fetched_before p = (lastFetchTime (prov_data p) = None \<or> 0 < prov_fetchSuccesses p)"

section \<open>Staleness\<close>

lemma states_through_nonempty: "states_through s as \<noteq> []"
  by (cases as) simp_all

lemma last_states_through:
  "last (states_through s as) = foldl apply_setter s as"
  by (induction as arbitrary: s) (simp_all add: states_through_nonempty)

text \<open>
  C5. \<open>isStale\<close> answers true exactly when no fetch time is recorded or more than
  \<open>maxAge\<close> has passed since it (the default \<open>maxAge\<close> is 300000 ms); so it
  is true in the initial state, false right after a successful \<open>loadAllData\<close>,
  true again after \<open>invalidateCache\<close>, which changes nothing but the fetch time.
  The clock is taken not to read 0, the epoch itself, which \<open>!lastFetchTime\<close>
  does not tell from \<open>null\<close>.
\<close>

theorem isStale_spec:
  "isStale now (s :: ('c, 't, 'r) data_state) = isStale_with now 300000 s
   \<and> (lastFetchTime s \<noteq> Some 0
        \<longrightarrow> isStale_with now maxAge s
            = (lastFetchTime s = None \<or> now - the (lastFetchTime s) > maxAge))
   \<and> isStale now (initial_data :: ('c, 't, 'r) data_state)
   \<and> (now \<noteq> 0 \<longrightarrow>
        \<not> isStale now (snd (loadAllData True (Inr t) (Inr c) (Inr r) now s))
        \<and> lastFetchTime (snd (loadAllData True (Inr t) (Inr c) (Inr r) now s)) = Some now)
   \<and> isStale now (invalidateCache s)
   \<and> invalidateCache s = s\<lparr>lastFetchTime := None\<rparr>
   \<and> clients (invalidateCache s) = clients s
   \<and> templates (invalidateCache s) = templates s
   \<and> reminders (invalidateCache s) = reminders s"
  by (cases "lastFetchTime s")
    (auto simp: CACHE_DURATION_def isStale_def isStale_with_def initial_data_def
      invalidateCache_def loadAllData_def loadAllData_setters_def
      loadAllData_after_await_def last_states_through)

theorem isStale_spec_witness:
  "isStale 1000 (initial_data :: (nat, nat, nat) data_state)
   \<and> \<not> isStale 1000 (snd (loadAllData True (Inr (Bare [1::nat])) (Inr (Bare [2::nat]))
         (Inr [3::nat]) 1000 initial_data))
   \<and> \<not> isStale_with 301000 300000 (initial_data\<lparr>lastFetchTime := Some 1000\<rparr> :: (nat, nat, nat) data_state)
   \<and> isStale_with 301001 300000 (initial_data\<lparr>lastFetchTime := Some 1000\<rparr> :: (nat, nat, nat) data_state)"
proof -
  let ?s0 = "initial_data :: (nat, nat, nat) data_state"
  let ?s1 = "?s0\<lparr>lastFetchTime := Some 1000\<rparr>"
  have n: "(1000::int) \<noteq> 0" and k: "lastFetchTime ?s1 \<noteq> Some 0"
    by simp_all
  have a: "isStale 1000 ?s0"
    and b: "\<not> isStale 1000 (snd (loadAllData True (Inr (Bare [1::nat])) (Inr (Bare [2::nat]))
         (Inr [3::nat]) 1000 ?s0))"
    using isStale_spec [of 1000 ?s0 300000 "Bare [1]" "Bare [2]" "[3]"] n by blast+
  have c: "\<not> isStale_with 301000 300000 ?s1"
    using isStale_spec [of 301000 ?s1 300000] k by simp
  have d: "isStale_with 301001 300000 ?s1"
    using isStale_spec [of 301001 ?s1 300000] k by simp
  from a b c d show ?thesis by blast
qed

section \<open>Paging through the cache\<close>

lemma slice_from_0: "slice xs 0 n = take n xs"
  by (simp add: slice_def)

lemma slice_window: "slice xs a (a + n) = take n (drop a xs)"
  by (simp add: slice_def)

lemma initialLoadEffect_cache:
  assumes "cachedTemplates \<noteq> []" "\<not> tpl_hasInitialized v" "\<not> searching (tpl_searchQuery v)"
  shows "initialLoadEffect cachedTemplates data v =
     v\<lparr>tpl_templates := take LIMIT cachedTemplates,
       tpl_total := length cachedTemplates,
       tpl_hasMore := (length cachedTemplates > LIMIT),
       tpl_offset := min (length cachedTemplates) LIMIT,
       tpl_loading := False, tpl_hasInitialized := True\<rparr>"
  using assms by (simp add: initialLoadEffect_def firstPageFromCache_def slice_from_0 Let_def)

lemma handleLoadMore_cache:
  assumes "cache_window c v"
  shows "handleLoadMore c data v =
     (if tpl_offset v < length c then
        v\<lparr>tpl_templates := take (min (length c) (tpl_offset v + LIMIT)) c,
          tpl_offset := min (length c) (tpl_offset v + LIMIT),
          tpl_hasMore := (min (length c) (tpl_offset v + LIMIT) < length c)\<rparr>
      else v)"
proof -
  let ?o = "tpl_offset v"
  have s: "\<not> searching (tpl_searchQuery v)" and le: "?o \<le> length c"
    and t: "tpl_templates v = take ?o c"
    using assms by (simp_all add: cache_window_def)
  have len: "length (slice c ?o (?o + LIMIT)) = min (length c - ?o) LIMIT"
    by (simp add: slice_window)
  have app: "take ?o c @ slice c ?o (?o + LIMIT) = take (?o + LIMIT) c"
    by (simp add: slice_window take_add)
  have tk: "take (?o + LIMIT) c = take (min (length c) (?o + LIMIT)) c"
    by (simp add: min_def)
  have off: "?o + min (length c - ?o) LIMIT = min (length c) (?o + LIMIT)"
    using le by arith
  have pos: "0 < LIMIT" by (simp add: LIMIT_def)
  show ?thesis
  proof (cases "?o < length c")
    case True
    then have "length (slice c ?o (?o + LIMIT)) \<noteq> 0"
      using len pos by simp
    then have ne: "slice c ?o (?o + LIMIT) \<noteq> []"
      by simp
    show ?thesis
      using True s t app tk off len ne
      by (simp add: handleLoadMore_def Let_def)
  next
    case False
    then have "length (slice c ?o (?o + LIMIT)) = 0"
      using len by simp
    then have "slice c ?o (?o + LIMIT) = []"
      by simp
    then show ?thesis
      using False s by (simp add: handleLoadMore_def Let_def)
  qed
qed

lemma handleLoadMore_window:
  assumes "cache_window c v"
  shows "cache_window c (handleLoadMore c data v)"
  using assms handleLoadMore_cache [OF assms, of data]
  by (auto simp: cache_window_def)

lemma loadMoreTimes_window:
  assumes "cache_window c v"
  shows "cache_window c (loadMoreTimes k c data v)
     \<and> tpl_offset (loadMoreTimes k c data v) = min (length c) (tpl_offset v + LIMIT * k)"
proof (induction k)
  case 0
  then show ?case using assms by (simp add: cache_window_def)
next
  case (Suc k)
  then have w: "cache_window c (loadMoreTimes k c data v)"
    and o: "tpl_offset (loadMoreTimes k c data v) = min (length c) (tpl_offset v + LIMIT * k)"
    by simp_all
  have "tpl_offset (handleLoadMore c data (loadMoreTimes k c data v))
      = min (length c) (tpl_offset v + LIMIT * Suc k)"
    using handleLoadMore_cache [OF w, of data] o
    by (auto simp: min_def)
  then show ?case using handleLoadMore_window [OF w] by simp
qed


lemma initialLoadEffect_window:
  assumes "cachedTemplates \<noteq> []" "\<not> tpl_hasInitialized v" "\<not> searching (tpl_searchQuery v)"
  shows "cache_window cachedTemplates (initialLoadEffect cachedTemplates data v)"
  using assms
  by (auto simp: initialLoadEffect_cache [OF assms] cache_window_def min_def)

lemma afterPages_window:
  assumes "cachedTemplates \<noteq> []" "\<not> tpl_hasInitialized v" "\<not> searching (tpl_searchQuery v)"
  shows "cache_window cachedTemplates (afterPages k cachedTemplates data0 data v)"
    and "tpl_offset (afterPages k cachedTemplates data0 data v)
          = min (length cachedTemplates) (LIMIT * Suc k)"
proof -
  let ?f = "initialLoadEffect cachedTemplates data0 v"
  have w: "cache_window cachedTemplates ?f"
    by (rule initialLoadEffect_window [OF assms])
  have o: "tpl_offset ?f = min (length cachedTemplates) LIMIT"
    by (simp add: initialLoadEffect_cache [OF assms])
  show "cache_window cachedTemplates (afterPages k cachedTemplates data0 data v)"
    using loadMoreTimes_window [OF w, of k data] by (simp add: afterPages_def)
  have "min (length cachedTemplates) (min (length cachedTemplates) LIMIT + LIMIT * k)
      = min (length cachedTemplates) (LIMIT * Suc k)"
    by (simp add: min_def)
  then show "tpl_offset (afterPages k cachedTemplates data0 data v)
          = min (length cachedTemplates) (LIMIT * Suc k)"
    using loadMoreTimes_window [OF w, of k data] o by (simp add: afterPages_def)
qed

lemma min_step: "min (n::nat) (a + l) = min n a + min l (n - min n a)"
  by arith

text \<open>
  C1 (as amended). For a non-empty cache with pairwise distinct identifiers and no search
  term, the initial load shows the first \<open>min LIMIT n\<close> cached items with
  \<open>total = n\<close>, \<open>hasMore = (n > LIMIT)\<close> and the offset equal to the
  number shown; each further \<open>handleLoadMore\<close> appends the next
  \<open>min LIMIT (n - offset)\<close> cached items in order, advances the offset by as
  many and leaves \<open>hasMore = (offset < n)\<close>; at \<open>offset = n\<close> it
  changes nothing; the identifiers shown stay distinct; and with 60 cached items the list
  has 25, 50, 60, 60 entries with \<open>hasMore\<close> true, true, false, false.
\<close>

theorem cache_pagination:
  fixes ident :: "'t \<Rightarrow> 'i"
  assumes "cachedTemplates \<noteq> []" and "distinct (map ident cachedTemplates)"
    and "\<not> tpl_hasInitialized v" and "\<not> searching (tpl_searchQuery v)"
  shows "(let n = length cachedTemplates;
              first = initialLoadEffect cachedTemplates data0 v;
              page = (\<lambda>k. afterPages k cachedTemplates data0 data v)
          in tpl_templates first = take (min LIMIT n) cachedTemplates
           \<and> tpl_total first = n
           \<and> tpl_hasMore first = (n > LIMIT)
           \<and> tpl_offset first = length (tpl_templates first)
           \<and> page 0 = first
           \<and> page (Suc k) = handleLoadMore cachedTemplates data (page k)
           \<and> tpl_templates (page (Suc k)) = tpl_templates (page k)
                @ take (min LIMIT (n - tpl_offset (page k))) (drop (tpl_offset (page k)) cachedTemplates)
           \<and> tpl_offset (page (Suc k)) = tpl_offset (page k) + min LIMIT (n - tpl_offset (page k))
           \<and> tpl_hasMore (page (Suc k)) = (tpl_offset (page (Suc k)) < n)
           \<and> tpl_total (page k) = n
           \<and> tpl_offset (page k) = length (tpl_templates (page k))
           \<and> (tpl_offset (page k) = n \<longrightarrow> page (Suc k) = page k)
           \<and> distinct (map ident (tpl_templates (page k)))
           \<and> (n = 60 \<longrightarrow>
                 map (\<lambda>j. (length (tpl_templates (page j)), tpl_hasMore (page j))) [0, 1, 2, 3]
                   = [(25, True), (50, True), (60, False), (60, False)]))"
proof -
  let ?c = cachedTemplates
  let ?n = "length ?c"
  let ?first = "initialLoadEffect ?c data0 v"
  let ?page = "\<lambda>k. afterPages k ?c data0 data v"
  note h = assms(1) assms(3) assms(4)
  have f: "?first = v\<lparr>tpl_templates := take LIMIT ?c, tpl_total := ?n,
       tpl_hasMore := (?n > LIMIT), tpl_offset := min ?n LIMIT,
       tpl_loading := False, tpl_hasInitialized := True\<rparr>"
    by (rule initialLoadEffect_cache [OF h])
  have w: "cache_window ?c (?page j)" and o: "tpl_offset (?page j) = min ?n (LIMIT * Suc j)" for j
    using afterPages_window [OF h] by blast+
  have t: "tpl_templates (?page j) = take (min ?n (LIMIT * Suc j)) ?c" for j
    using w [of j] o [of j] by (simp add: cache_window_def)
  have hm: "tpl_hasMore (?page j) = (min ?n (LIMIT * Suc j) < ?n)" for j
    using w [of j] o [of j] by (simp add: cache_window_def)
  have step: "?page (Suc k) = handleLoadMore ?c data (?page k)"
    by (simp add: afterPages_def)
  have e: "min ?n (LIMIT * Suc (Suc k))
      = min ?n (LIMIT * Suc k) + min LIMIT (?n - min ?n (LIMIT * Suc k))"
  proof -
    have "LIMIT * Suc (Suc k) = LIMIT * Suc k + LIMIT" by simp
    then show ?thesis by (simp only: min_step)
  qed
  have 1: "tpl_templates ?first = take (min LIMIT ?n) ?c"
    by (simp add: f min_def)
  have 2: "tpl_total ?first = ?n" by (simp add: f)
  have 3: "tpl_hasMore ?first = (?n > LIMIT)" by (simp add: f)
  have 4: "tpl_offset ?first = length (tpl_templates ?first)" by (simp add: f)
  have 5: "?page 0 = ?first" by (simp add: afterPages_def)
  have 6: "tpl_templates (?page (Suc k)) = tpl_templates (?page k)
      @ take (min LIMIT (?n - tpl_offset (?page k))) (drop (tpl_offset (?page k)) ?c)"
    by (simp only: t o e take_add)
  have 7: "tpl_offset (?page (Suc k)) = tpl_offset (?page k) + min LIMIT (?n - tpl_offset (?page k))"
    by (simp only: o e)
  have 8: "tpl_hasMore (?page (Suc k)) = (tpl_offset (?page (Suc k)) < ?n)"
    by (simp only: hm o)
  have 9: "tpl_total (?page k) = ?n"
    using w [of k] by (simp add: cache_window_def)
  have 10: "tpl_offset (?page k) = length (tpl_templates (?page k))"
    by (simp add: t o)
  have 11: "tpl_offset (?page k) = ?n \<longrightarrow> ?page (Suc k) = ?page k"
    using handleLoadMore_cache [OF w [of k], of data] by (simp add: step)
  have 12: "distinct (map ident (tpl_templates (?page k)))"
    using assms(2) by (simp add: t distinct_take take_map [symmetric] del: mult_Suc_right)
  have 13: "?n = 60 \<longrightarrow>
       map (\<lambda>j. (length (tpl_templates (?page j)), tpl_hasMore (?page j))) [0, 1, 2, 3]
         = [(25, True), (50, True), (60, False), (60, False)]"
    by (simp add: t hm LIMIT_def)
  show ?thesis
    unfolding Let_def using 1 2 3 4 5 step 6 7 8 9 10 11 12 13 by blast
qed

theorem cache_pagination_witness:
  "[0..<60] \<noteq> ([] :: nat list) \<and> distinct (map id [0..<60])
   \<and> \<not> tpl_hasInitialized (initial_view :: nat templates_view)
   \<and> \<not> searching (tpl_searchQuery (initial_view :: nat templates_view))
   \<and> map (\<lambda>j. (length (tpl_templates (afterPages j [0..<60] (Inl []) (Inl []) initial_view)),
                 tpl_hasMore (afterPages j [0..<60] (Inl []) (Inl []) (initial_view :: nat templates_view))))
         [0, 1, 2, 3]
       = [(25, True), (50, True), (60, False), (60, False)]"
proof -
  have a: "[0..<60] \<noteq> ([] :: nat list)" and b: "distinct (map id [0..<60])"
    by simp_all
  have c: "\<not> tpl_hasInitialized (initial_view :: nat templates_view)"
    and d: "\<not> searching (tpl_searchQuery (initial_view :: nat templates_view))"
    by (simp_all add: initial_view_def searching_def trim_def)
  have n: "length [0..<60] = 60" by simp
  show ?thesis
    using cache_pagination [OF a b c d, of "Inl []" "Inl []" 1] a b c d
    unfolding Let_def n by blast
qed

text \<open>
  With an empty cache the initial load does not page locally: it asks the backend and
  shows what the backend answers.
\<close>

theorem empty_cache_first_page_counterexample:
  "tpl_templates (initialLoadEffect [] (Inr (Bare [''t1''])) initial_view)
     \<noteq> take (min LIMIT (length ([] :: string list))) []
   \<and> tpl_total (initialLoadEffect ([] :: string list) (Inr (Bare [''t1''])) initial_view)
     \<noteq> length ([] :: string list)"
  by (simp add: initialLoadEffect_def initial_view_def searching_def trim_def
      loadTemplatesFromAPI_settle_def loadTemplatesFromAPI_call_def)


section \<open>A failed load\<close>

lemma promise_all3_rejects:
  "isl td \<or> isl cd \<or> isl rd \<Longrightarrow> \<exists>e. promise_all3 td cd rd = Inl e"
  by (cases td; cases cd; cases rd) simp_all

text \<open>
  C3 (as amended). When any of the three fetches of \<open>loadAllData\<close> fails, every
  state the invocation passes through has the clients, templates, reminders and fetch time
  it started with; the invocation ends with the loading flag cleared and the error written
  to the console, and its promise is fulfilled: the caller is not told.
\<close>

theorem loadAllData_failure_keeps_cache:
  assumes "isl templatesData \<or> isl clientsData \<or> isl remindersData"
  shows "(\<forall>s' \<in> set (states_through s
              (loadAllData_setters True templatesData clientsData remindersData now)).
            clients s' = clients s \<and> templates s' = templates s
            \<and> reminders s' = reminders s \<and> lastFetchTime s' = lastFetchTime s)
     \<and> (\<exists>e. loadAllData True templatesData clientsData remindersData now s
            = (Fulfilled,
               s\<lparr>loading := False,
                 consoleErrors := consoleErrors s @ [''Failed to load data: '' @ e]\<rparr>))"
proof -
  obtain e where e: "promise_all3 templatesData clientsData remindersData = Inl e"
    using promise_all3_rejects [OF assms] by blast
  have acts: "loadAllData_setters True templatesData clientsData remindersData now
      = [SetLoading True, ConsoleError (''Failed to load data: '' @ e), SetLoading False]"
    by (simp add: loadAllData_setters_def loadAllData_after_await_def e)
  have "loadAllData True templatesData clientsData remindersData now s
      = (Fulfilled, s\<lparr>loading := False,
           consoleErrors := consoleErrors s @ [''Failed to load data: '' @ e]\<rparr>)"
    by (simp add: loadAllData_def acts)
  then show ?thesis
    by (auto simp: acts)
qed

theorem loadAllData_failure_keeps_cache_witness:
  "isl (Inl ''Network error'' :: nat payload fetched)
   \<and> snd (loadAllData True (Inl ''Network error'') (Inr (Bare [7])) (Inr [9]) 5000
        (initial_data\<lparr>clients := [1::nat], templates := [2::nat], reminders := [3::nat],
           lastFetchTime := Some 1000\<rparr>))
     = initial_data\<lparr>clients := [1], templates := [2], reminders := [3],
         lastFetchTime := Some 1000, loading := False,
         consoleErrors := [''Failed to load data: Network error'']\<rparr>"
proof -
  let ?s = "initial_data\<lparr>clients := [1::nat], templates := [2::nat], reminders := [3::nat],
           lastFetchTime := Some 1000\<rparr>"
  have h: "isl (Inl ''Network error'' :: nat payload fetched)
      \<or> isl (Inr (Bare [7]) :: nat payload fetched) \<or> isl (Inr [9] :: nat list fetched)"
    by simp
  obtain e where e: "loadAllData True (Inl ''Network error'') (Inr (Bare [7])) (Inr [9]) 5000 ?s
      = (Fulfilled, ?s\<lparr>loading := False,
           consoleErrors := consoleErrors ?s @ [''Failed to load data: '' @ e]\<rparr>)"
    using loadAllData_failure_keeps_cache [OF h, of ?s 5000] by blast
  have "consoleErrors (snd (loadAllData True (Inl ''Network error'') (Inr (Bare [7::nat]))
      (Inr [9::nat]) 5000 ?s)) = [''Failed to load data: Network error'']"
    by (simp add: loadAllData_def loadAllData_setters_def loadAllData_after_await_def
        initial_data_def)
  with e have "e = ''Network error''"
    by (simp add: initial_data_def)
  with e show ?thesis
    by (simp add: initial_data_def)
qed

text \<open>
  The promise of a failed \<open>loadAllData\<close> is fulfilled, not rejected with the
  error.
\<close>

theorem loadAllData_failure_not_reported_counterexample:
  "fst (loadAllData True (Inl ''Network error'') (Inr (Bare [7::nat])) (Inr [9::nat]) 5000
          (initial_data :: (nat, nat, nat) data_state)) = Fulfilled
   \<and> fst (loadAllData True (Inl ''Network error'') (Inr (Bare [7::nat])) (Inr [9::nat]) 5000
          (initial_data :: (nat, nat, nat) data_state)) \<noteq> Rejected ''Network error''"
  by (simp add: loadAllData_def)

section \<open>Adopting a response\<close>

text \<open>
  C4. A bare array is shown as one complete page: the list is the array, the total its
  length, \<open>hasMore\<close> false. A page object with an array of items has its items
  adopted (replacing the list on a reset, appended otherwise), a missing total read as 0
  and a missing \<open>hasMore\<close> as false. Neither goes through the \<open>catch\<close>:
  nothing is logged. The same holds of \<open>loadTemplatesFromAPI\<close> and of
  \<open>loadClients\<close>.
\<close>

theorem response_shapes:
  "(let v' = loadTemplatesFromAPI_settle reset currentOffset (Inr (Bare xs)) v
    in tpl_templates v' = xs \<and> tpl_total v' = length xs \<and> tpl_hasMore v' = False
       \<and> tpl_consoleErrors v' = tpl_consoleErrors v)
   \<and> (let v' = loadTemplatesFromAPI_settle reset currentOffset (Inr (Paged (Some xs) tot hm)) v
       in tpl_templates v' = (if reset then xs else tpl_templates v @ xs)
          \<and> tpl_total v' = (case tot of None \<Rightarrow> 0 | Some n \<Rightarrow> n)
          \<and> tpl_hasMore v' = (case hm of None \<Rightarrow> False | Some b \<Rightarrow> b)
          \<and> tpl_consoleErrors v' = tpl_consoleErrors v)
   \<and> (let c' = loadClients_settle reset currentOffset (Inr (Bare ys)) c
       in cl_clients c' = ys \<and> cl_total c' = length ys \<and> cl_hasMore c' = False
          \<and> cl_consoleErrors c' = cl_consoleErrors c)
   \<and> (let c' = loadClients_settle reset currentOffset (Inr (Paged (Some ys) tot hm)) c
       in cl_clients c' = (if reset then ys else cl_clients c @ ys)
          \<and> cl_total c' = (case tot of None \<Rightarrow> 0 | Some n \<Rightarrow> n)
          \<and> cl_hasMore c' = (case hm of None \<Rightarrow> False | Some b \<Rightarrow> b)
          \<and> cl_consoleErrors c' = cl_consoleErrors c)"
  by (cases tot; cases hm)
    (simp_all add: loadTemplatesFromAPI_settle_def loadClients_settle_def Let_def)

theorem response_shapes_witness:
  "tpl_templates (loadTemplatesFromAPI True (Some (utf16 ''visa'')) (Inr (Bare [''a'', ''b'', ''c''])) initial_view)
     = [''a'', ''b'', ''c'']
   \<and> tpl_total (loadTemplatesFromAPI True (Some (utf16 ''visa'')) (Inr (Bare [''a'', ''b'', ''c''])) initial_view) = 3
   \<and> tpl_hasMore (loadTemplatesFromAPI True (Some (utf16 ''visa'')) (Inr (Bare [''a'', ''b'', ''c''])) initial_view) = False
   \<and> tpl_total (loadTemplatesFromAPI True (Some (utf16 ''visa'')) (Inr (Paged (Some [''a'']) None None)) initial_view) = 0
   \<and> tpl_hasMore (loadTemplatesFromAPI True (Some (utf16 ''visa'')) (Inr (Paged (Some [''a'']) None None)) initial_view) = False"
proof -
  let ?v = "loadTemplatesFromAPI_call True (Some (utf16 ''visa'')) (initial_view :: string templates_view)"
  have l: "length [''a'', ''b'', ''c''] = 3" by simp
  note a = response_shapes [where reset = True and currentOffset = 0
      and xs = "[''a'', ''b'', ''c'']" and v = ?v and ys = "[] :: nat list" and c = initial_clients,
      unfolded Let_def l]
  note b = response_shapes [where reset = True and currentOffset = 0 and xs = "[''a'']"
      and v = ?v and tot = None and hm = None and ys = "[] :: nat list"
      and c = initial_clients,
      unfolded Let_def option.case]
  show ?thesis
    unfolding loadTemplatesFromAPI_def if_True using a b by blast
qed

text \<open>
  C2 at the search term \<open>visa\<close>: the view calls
  \<open>api.getCaseTemplates(25, 0, ''visa'')\<close>, and the request that call makes is a
  \<open>GET\<close> of \<open>/api/case-templates\<close>, the same as for any other arguments:
  it carries no limit, no offset and no search term.
\<close>

theorem search_request_drops_parameters:
  "tpl_apiCalls (loadTemplatesFromAPI_call True (Some (utf16 ''visa'')) initial_view)
     = [\<lparr>arg_limit = 25, arg_offset = 0, arg_search = Some (utf16 ''visa'')\<rparr>]
   \<and> getCaseTemplates_request ''/api'' \<lparr>arg_limit = 25, arg_offset = 0, arg_search = Some (utf16 ''visa'')\<rparr>
     = \<lparr>req_method = ''GET'', req_url = ''/api/case-templates''\<rparr>
   \<and> getCaseTemplates_request ''/api'' \<lparr>arg_limit = 25, arg_offset = 0, arg_search = Some (utf16 ''visa'')\<rparr>
     = getCaseTemplates_request ''/api'' \<lparr>arg_limit = 25, arg_offset = 50, arg_search = Some (utf16 ''work'')\<rparr>"
  by (simp add: loadTemplatesFromAPI_call_def initial_view_def LIMIT_def
      getCaseTemplates_request_def)

section \<open>Debounced search\<close>


















section \<open>After a mutation\<close>

lemma not_searching_initial: "\<not> searching (tpl_searchQuery initial_view)"
  by (simp add: initial_view_def searching_def trim_def)

lemma shown_short:
  "length xs \<le> 25 \<Longrightarrow> xs \<noteq> [] \<Longrightarrow>
   initialLoadEffect xs data initial_view
     = initial_view\<lparr>tpl_templates := xs, tpl_total := length xs, tpl_hasMore := False,
         tpl_offset := length xs, tpl_loading := False, tpl_hasInitialized := True\<rparr>"
  using not_searching_initial
  by (simp add: initialLoadEffect_def firstPageFromCache_def slice_def LIMIT_def Let_def
      initial_view_def)

text \<open>
  C7 at three committed mutations. One template is cached and shown; it is edited, and the
  refreshed cache holds the new version: in either order of render and handler the view
  still shows the old version, not the first page of the refreshed cache. Two templates
  are cached and shown and the first is deleted: when the handler clears
  \<open>hasInitialized\<close> before the render, the view still shows both.
\<close>

theorem mutation_leaves_stale_list:
  "tpl_templates (snd (onMutationCommitted FlagClearedFirst
        (Inr (Bare [(''t1'', ''Work permit'')])) 2000
        (initial_data\<lparr>templates := [(''t1'', ''Work visa'')], lastFetchTime := Some 1000\<rparr>,
         initialLoadEffect [(''t1'', ''Work visa'')] (Inl []) initial_view)))
     = [(''t1'', ''Work visa'')]
   \<and> tpl_templates (snd (onMutationCommitted EffectFirst
        (Inr (Bare [(''t1'', ''Work permit'')])) 2000
        (initial_data\<lparr>templates := [(''t1'', ''Work visa'')], lastFetchTime := Some 1000\<rparr>,
         initialLoadEffect [(''t1'', ''Work visa'')] (Inl []) initial_view)))
     = [(''t1'', ''Work visa'')]
   \<and> templates (fst (onMutationCommitted EffectFirst
        (Inr (Bare [(''t1'', ''Work permit'')])) 2000
        (initial_data\<lparr>templates := [(''t1'', ''Work visa'')], lastFetchTime := Some 1000\<rparr>,
         initialLoadEffect [(''t1'', ''Work visa'')] (Inl []) initial_view)))
     = [(''t1'', ''Work permit'')]
   \<and> slice [(''t1'', ''Work permit'')] 0 LIMIT = [(''t1'', ''Work permit'')]
   \<and> tpl_templates (snd (onMutationCommitted FlagClearedFirst
        (Inr (Bare [(''t2'', ''Study'')])) 2000
        (initial_data\<lparr>templates := [(''t1'', ''Work visa''), (''t2'', ''Study'')],
           lastFetchTime := Some 1000\<rparr>,
         initialLoadEffect [(''t1'', ''Work visa''), (''t2'', ''Study'')] (Inl []) initial_view)))
     = [(''t1'', ''Work visa''), (''t2'', ''Study'')]"
  by (simp add: onMutationCommitted_def refreshTemplates_def rerenderWithCache_def shown_short
      cacheResyncEffect_def slice_def LIMIT_def Let_def)

section \<open>The search input of the Clients list\<close>

lemma searchTimeoutRef_unbound:
  "resolve Clients_onChange_scope ''searchTimeoutRef'' = Some (ReferenceError ''searchTimeoutRef'')"
  "resolve Clients_cleanup_scope ''searchTimeoutRef'' = Some (ReferenceError ''searchTimeoutRef'')"
  by (simp_all add: resolve_def Clients_onChange_scope_def Clients_cleanup_scope_def
      onChange_locals_def Clients_locals_def Clients_imports_def browser_globals_def)

lemma Clients_onChange_throws:
  "Clients_onChange value now v
     = (Some (ReferenceError ''searchTimeoutRef''), v\<lparr>cl_searchQuery := value\<rparr>)"
  by (simp add: Clients_onChange_def searchTimeoutRef_unbound Let_def)

lemma Clients_typing_no_timer:
  "cl_timers (Clients_typing keys v) = cl_timers v
   \<and> cl_apiCalls (Clients_typing keys v) = cl_apiCalls v"
  by (induction keys v rule: Clients_typing.induct) (simp_all add: Clients_onChange_throws)

text \<open>
  C9. No scope of the Clients component declares \<open>searchTimeoutRef\<close>. Every
  change of the search input therefore sets the query and then throws a
  \<open>ReferenceError\<close>; whatever is typed, no timer for the debounced reload is ever
  set and no call of the API comes from it. The cleanup run on unmount throws the same
  error.
\<close>

theorem Clients_search_throws:
  "Clients_onChange value now v
     = (Some (ReferenceError ''searchTimeoutRef''), v\<lparr>cl_searchQuery := value\<rparr>)
   \<and> cl_timers (Clients_typing keys v) = cl_timers v
   \<and> cl_apiCalls (Clients_typing keys v) = cl_apiCalls v
   \<and> fst (Clients_unmountCleanup v) = Some (ReferenceError ''searchTimeoutRef'')
   \<and> ''searchTimeoutRef'' \<notin> set Clients_onChange_scope
   \<and> ''searchTimeoutRef'' \<notin> set Clients_cleanup_scope"
  using searchTimeoutRef_unbound
  by (simp add: Clients_onChange_throws Clients_typing_no_timer Clients_unmountCleanup_def
      resolve_def split: if_splits)

theorem Clients_search_throws_witness:
  "fst (Clients_onChange (utf16 ''ana'') 1000
        \<lparr>cl_clients = [1::nat], cl_loading = False, cl_loadingMore = False,
         cl_hasMore = False, cl_total = 1, cl_offset = 1, cl_searchQuery = [],
         cl_apiCalls = [], cl_consoleErrors = [], cl_timers = []\<rparr>)
     = Some (ReferenceError ''searchTimeoutRef'')
   \<and> cl_timers (Clients_typing [(utf16 ''a'', 1000), (utf16 ''an'', 1100), (utf16 ''ana'', 1900)]
        \<lparr>cl_clients = [1::nat], cl_loading = False, cl_loadingMore = False,
         cl_hasMore = False, cl_total = 1, cl_offset = 1, cl_searchQuery = [],
         cl_apiCalls = [], cl_consoleErrors = [], cl_timers = []\<rparr>) = []"
proof -
  let ?v = "\<lparr>cl_clients = [1::nat], cl_loading = False, cl_loadingMore = False,
         cl_hasMore = False, cl_total = 1, cl_offset = 1, cl_searchQuery = [],
         cl_apiCalls = [], cl_consoleErrors = [], cl_timers = []\<rparr>"
  note t = Clients_search_throws [of "utf16 ''ana''" 1000 ?v
      "[(utf16 ''a'', 1000), (utf16 ''an'', 1100), (utf16 ''ana'', 1900)]"]
  have a: "Clients_onChange (utf16 ''ana'') 1000 ?v
      = (Some (ReferenceError ''searchTimeoutRef''), ?v\<lparr>cl_searchQuery := utf16 ''ana''\<rparr>)"
    using t by blast
  have b: "cl_timers (Clients_typing [(utf16 ''a'', 1000), (utf16 ''an'', 1100), (utf16 ''ana'', 1900)] ?v)
      = cl_timers ?v"
    using t by blast
  show ?thesis
    unfolding a b by simp
qed

section \<open>Background refresh\<close>

lemma foldl_after_await_time:
  "lastFetchTime (foldl apply_setter s (loadAllData_after_await td cd rd now))
     = (if isl (promise_all3 td cd rd) then lastFetchTime s else Some now)"
  by (cases "promise_all3 td cd rd")
    (auto simp: loadAllData_after_await_def)

lemma step_time_cases:
  "lastFetchTime (prov_data (step p e)) = lastFetchTime (prov_data p)
   \<or> (successful_fetch e \<and> (\<exists>now. lastFetchTime (prov_data (step p e)) = Some now)
       \<and> prov_fetchSuccesses (step p e) = Suc (prov_fetchSuccesses p))
   \<or> (e = InvalidateCache \<and> lastFetchTime (prov_data (step p e)) = None)"
proof (cases e)
  case (CheckUser user)
  then show ?thesis
    by (simp add: checkUser_def loadAllData_begin_def Let_def)
next
  case (IntervalTick user now)
  then show ?thesis
    by (simp add: autoRefreshTick_def loadAllData_begin_def)
next
  case (RefreshAll user)
  then show ?thesis
    by (simp add: refreshAll_def loadAllData_begin_def)
next
  case (LoadAllSettled td cd rd now)
  then show ?thesis
    by (simp add: loadAllData_end_def foldl_after_await_time)
next
  case (TemplatesRefreshed d now)
  then show ?thesis
    by (cases d) (simp_all add: refreshTemplates_def)
next
  case (ClientsRefreshed d now)
  then show ?thesis
    by (cases d) (simp_all add: refreshClients_def)
next
  case (RemindersRefreshed d now)
  then show ?thesis
    by (cases d) (simp_all add: refreshReminders_def)
next
  case InvalidateCache
  then show ?thesis
    by (simp add: invalidateCache_def)
qed

lemma step_successes_mono: "prov_fetchSuccesses p \<le> prov_fetchSuccesses (step p e)"
proof (cases e)
  case (TemplatesRefreshed d now)
  then show ?thesis by (cases d) simp_all
next
  case (ClientsRefreshed d now)
  then show ?thesis by (cases d) simp_all
next
  case (RemindersRefreshed d now)
  then show ?thesis by (cases d) simp_all
qed (simp_all add: checkUser_def loadAllData_begin_def Let_def autoRefreshTick_def
    refreshAll_def loadAllData_end_def)

lemma step_fetched_before: "fetched_before p \<Longrightarrow> fetched_before (step p e)"
  using step_time_cases [of p e] step_successes_mono [of p e]
  by (auto simp: fetched_before_def)

lemma run_fetched_before: "fetched_before (run es initial_provider)"
proof (induction es rule: rev_induct)
  case Nil
  then show ?case
    by (simp add: run_def fetched_before_def initial_provider_def initial_data_def)
next
  case (snoc e es)
  then show ?case
    by (simp add: run_def step_fetched_before)
qed

lemma registered_time: "autoRefreshRegistered s \<Longrightarrow> isInitialized s \<and> lastFetchTime s \<noteq> None"
  by (cases "lastFetchTime s") (simp_all add: autoRefreshRegistered_def)

text \<open>
  C8 (as amended). From the initial state, after any events, a tick of the background
  interval starts \<open>loadAllData\<close> only if the provider is initialised, a fetch time
  is recorded, some fetch has succeeded before, and the cache is stale. Nothing guards
  against a load in flight: in every state \<open>refreshAll\<close> with a user starts one
  more, and so does a tick whenever the interval is registered and the cache is stale.
\<close>

theorem background_check_guard:
  "(let p = run es initial_provider
    in prov_inFlight (step p (IntervalTick user now)) \<noteq> prov_inFlight p \<longrightarrow>
         isInitialized (prov_data p) \<and> lastFetchTime (prov_data p) \<noteq> None
         \<and> 0 < prov_fetchSuccesses p \<and> isStale now (prov_data p))
   \<and> prov_inFlight (step q (RefreshAll True)) = Suc (prov_inFlight q)
   \<and> (autoRefreshRegistered (prov_data q) \<and> isStale now (prov_data q) \<longrightarrow>
        prov_inFlight (step q (IntervalTick True now)) = Suc (prov_inFlight q))"
proof -
  let ?p = "run es initial_provider"
  have "isInitialized (prov_data ?p) \<and> lastFetchTime (prov_data ?p) \<noteq> None
         \<and> 0 < prov_fetchSuccesses ?p \<and> isStale now (prov_data ?p)"
    if "prov_inFlight (step ?p (IntervalTick user now)) \<noteq> prov_inFlight ?p"
  proof -
    from that have r: "autoRefreshRegistered (prov_data ?p)" and s: "isStale now (prov_data ?p)"
      by (auto simp: autoRefreshTick_def split: if_splits)
    from registered_time [OF r] run_fetched_before [of es] s show ?thesis
      by (auto simp: fetched_before_def)
  qed
  moreover have "prov_inFlight (step q (RefreshAll True)) = Suc (prov_inFlight q)"
    by (simp add: refreshAll_def loadAllData_begin_def)
  moreover have "autoRefreshRegistered (prov_data q) \<and> isStale now (prov_data q) \<longrightarrow>
        prov_inFlight (step q (IntervalTick True now)) = Suc (prov_inFlight q)"
    by (simp add: autoRefreshTick_def loadAllData_begin_def)
  ultimately show ?thesis
    unfolding Let_def by blast
qed


lemma provider_simps:
  "run [] p = p" "run (e # es) p = run es (step p e)"
  by (simp_all add: run_def)

lemma logged_in_and_loaded:
  "run [CheckUser True, LoadAllSettled (Inr (Bare [10::nat])) (Inr (Bare [20::nat])) (Inr [30::nat]) 1000]
       initial_provider
     = \<lparr>prov_data = \<lparr>clients = [20], templates = [10], reminders = [30], loading = False,
                       lastFetchTime = Some 1000, isInitialized = True, consoleErrors = []\<rparr>,
        prov_inFlight = 0, prov_fetchSuccesses = 1\<rparr>"
  by (simp add: provider_simps checkUser_def loadAllData_begin_def loadAllData_end_def
      loadAllData_after_await_def initial_provider_def initial_data_def Let_def)

lemma run_append: "run (es @ es') p = run es' (run es p)"
  by (simp add: run_def)

theorem background_check_guard_witness:
  "prov_inFlight (step (run [CheckUser True,
        LoadAllSettled (Inr (Bare [10::nat])) (Inr (Bare [20::nat])) (Inr [30::nat]) 1000]
        initial_provider) (IntervalTick True 400000))
     \<noteq> prov_inFlight (run [CheckUser True,
        LoadAllSettled (Inr (Bare [10::nat])) (Inr (Bare [20::nat])) (Inr [30::nat]) 1000]
        initial_provider)
   \<and> 0 < prov_fetchSuccesses (run [CheckUser True,
        LoadAllSettled (Inr (Bare [10::nat])) (Inr (Bare [20::nat])) (Inr [30::nat]) 1000]
        initial_provider)
   \<and> isStale 400000 (prov_data (run [CheckUser True,
        LoadAllSettled (Inr (Bare [10::nat])) (Inr (Bare [20::nat])) (Inr [30::nat]) 1000]
        initial_provider))"
proof -
  let ?es = "[CheckUser True,
        LoadAllSettled (Inr (Bare [10::nat])) (Inr (Bare [20::nat])) (Inr [30::nat]) 1000]"
  have h: "prov_inFlight (step (run ?es initial_provider) (IntervalTick True 400000))
      \<noteq> prov_inFlight (run ?es initial_provider)"
    by (simp add: logged_in_and_loaded autoRefreshTick_def autoRefreshRegistered_def
        isStale_def isStale_with_def CACHE_DURATION_def loadAllData_begin_def)
  from background_check_guard [of ?es True 400000, unfolded Let_def] h show ?thesis
    by blast
qed

text \<open>
  After login and a first load, a tick finds the cache stale and starts a load; while that
  one is in flight a second tick, or \<open>refreshAll\<close>, starts another. And when
  the load after login has failed and only a refresh of the templates has succeeded, a
  tick starts a load all the same.
\<close>

theorem concurrent_loadAll_counterexample:
  "prov_inFlight (run [CheckUser True,
        LoadAllSettled (Inr (Bare [10::nat])) (Inr (Bare [20::nat])) (Inr [30::nat]) 1000,
        IntervalTick True 400000] initial_provider) = 1
   \<and> prov_inFlight (run [CheckUser True,
        LoadAllSettled (Inr (Bare [10::nat])) (Inr (Bare [20::nat])) (Inr [30::nat]) 1000,
        IntervalTick True 400000, IntervalTick True 460000] initial_provider) = 2
   \<and> prov_inFlight (run [CheckUser True,
        LoadAllSettled (Inr (Bare [10::nat])) (Inr (Bare [20::nat])) (Inr [30::nat]) 1000,
        IntervalTick True 400000, RefreshAll True] initial_provider) = 2
   \<and> prov_inFlight (run [CheckUser True,
        LoadAllSettled (Inl ''Network error'') (Inr (Bare [20::nat])) (Inr [30::nat]) 1000,
        TemplatesRefreshed (Inr (Bare [10::nat])) 2000] initial_provider) = 0
   \<and> prov_inFlight (run [CheckUser True,
        LoadAllSettled (Inl ''Network error'') (Inr (Bare [20::nat])) (Inr [30::nat]) 1000,
        TemplatesRefreshed (Inr (Bare [10::nat])) 2000,
        IntervalTick True 400000] initial_provider) = 1"
proof -
  let ?es = "[CheckUser True,
        LoadAllSettled (Inr (Bare [10::nat])) (Inr (Bare [20::nat])) (Inr [30::nat]) 1000]"
  have a: "run (?es @ es') initial_provider = run es'
     \<lparr>prov_data = \<lparr>clients = [20], templates = [10], reminders = [30], loading = False,
                       lastFetchTime = Some 1000, isInitialized = True, consoleErrors = []\<rparr>,
        prov_inFlight = 0, prov_fetchSuccesses = 1\<rparr>" for es'
    by (simp only: run_append logged_in_and_loaded)
  have b: "prov_inFlight (run [CheckUser True,
        LoadAllSettled (Inl ''Network error'') (Inr (Bare [20::nat])) (Inr [30::nat]) 1000,
        TemplatesRefreshed (Inr (Bare [10::nat])) 2000] initial_provider) = 0"
    and c: "prov_inFlight (run [CheckUser True,
        LoadAllSettled (Inl ''Network error'') (Inr (Bare [20::nat])) (Inr [30::nat]) 1000,
        TemplatesRefreshed (Inr (Bare [10::nat])) 2000,
        IntervalTick True 400000] initial_provider) = 1"
    by (simp_all add: provider_simps checkUser_def loadAllData_begin_def loadAllData_end_def
        loadAllData_after_await_def initial_provider_def initial_data_def Let_def
        refreshTemplates_def autoRefreshTick_def autoRefreshRegistered_def
        isStale_def isStale_with_def CACHE_DURATION_def)
  have "prov_inFlight (run (?es @ [IntervalTick True 400000]) initial_provider) = 1"
    and "prov_inFlight (run (?es @ [IntervalTick True 400000, IntervalTick True 460000])
          initial_provider) = 2"
    and "prov_inFlight (run (?es @ [IntervalTick True 400000, RefreshAll True])
          initial_provider) = 2"
    unfolding a
    by (simp_all add: provider_simps autoRefreshTick_def autoRefreshRegistered_def
        isStale_def isStale_with_def CACHE_DURATION_def loadAllData_begin_def refreshAll_def)
  with b c show ?thesis by simp
qed

lemma tick_unregistered:
  "\<not> autoRefreshRegistered (prov_data p) \<Longrightarrow> step p (IntervalTick user now) = p"
  by (simp add: autoRefreshTick_def)

lemma invalidated_unregistered:
  "\<not> autoRefreshRegistered (prov_data (step p InvalidateCache))"
  by (simp add: autoRefreshRegistered_def invalidateCache_def)

lemma background_idle:
  assumes "\<not> autoRefreshRegistered (prov_data p)"
    and "list_all interval_tick es \<or> (isInitialized (prov_data p) \<and> list_all background es)"
  shows "run es p = p"
  using assms(2)
proof (induction es)
  case Nil
  then show ?case by (simp add: run_def)
next
  case (Cons e es)
  have "step p e = p"
    using Cons.prems assms(1)
    by (cases e) (auto simp: autoRefreshTick_def checkUser_def)
  moreover have "list_all interval_tick es \<or> (isInitialized (prov_data p) \<and> list_all background es)"
    using Cons.prems by auto
  ultimately show ?case
    using Cons.IH by (simp add: provider_simps)
qed

lemma quiet_idle:
  assumes "lastFetchTime (prov_data p) = None" and "isInitialized (prov_data p)"
    and "prov_inFlight p = 0" and "list_all (\<lambda>e. \<not> explicit_call e) es"
  shows "run es p = p"
  using assms(4)
proof (induction es)
  case Nil
  then show ?case by (simp add: run_def)
next
  case (Cons e es)
  have "step p e = p"
    using Cons.prems assms(1-3)
    by (cases e)
      (simp_all add: checkUser_def autoRefreshTick_def autoRefreshRegistered_def
        loadAllData_end_def invalidateCache_def)
  then show ?case
    using Cons by (simp add: provider_simps)
qed

lemma settled_load_repopulates:
  assumes "0 < prov_inFlight q" and "\<not> isl (promise_all3 td cd rd)"
  shows "lastFetchTime (prov_data (step q (LoadAllSettled td cd rd now))) = Some now"
  using assms by (simp add: loadAllData_end_def foldl_after_await_time)

text \<open>
  C10 (as amended). After \<open>invalidateCache\<close> the fetch time is \<open>null\<close> and
  the background interval is not registered; no run of interval ticks (nor, once the
  provider is initialised, of any background events) changes anything, so none starts
  \<open>loadAllData\<close>. When the provider is initialised and no \<open>loadAllData\<close>
  is in flight at the invalidation, nothing changes until an explicit call
  (\<open>refreshAll\<close> or the refresh of one collection). The fetch time leaves
  \<open>null\<close> only through a fetch that succeeded; a \<open>loadAllData\<close> that is
  in flight at the invalidation is such a fetch: when it succeeds it sets the fetch time.
  With a truthy fetch time the interval is registered again exactly when the provider is
  initialised.
\<close>

theorem invalidate_stops_auto_refresh:
  "\<not> autoRefreshRegistered (prov_data (step p InvalidateCache))
   \<and> lastFetchTime (prov_data (step p InvalidateCache)) = None
   \<and> (list_all interval_tick es \<longrightarrow> run es (step p InvalidateCache) = step p InvalidateCache)
   \<and> (isInitialized (prov_data p) \<and> list_all background es \<longrightarrow>
        run es (step p InvalidateCache) = step p InvalidateCache)
   \<and> (isInitialized (prov_data p) \<and> prov_inFlight p = 0
        \<and> list_all (\<lambda>e. \<not> explicit_call e) es \<longrightarrow>
        run es (step p InvalidateCache) = step p InvalidateCache)
   \<and> (lastFetchTime (prov_data q) = None \<and> lastFetchTime (prov_data (step q e)) \<noteq> None \<longrightarrow>
        successful_fetch e)
   \<and> (0 < prov_inFlight q \<and> \<not> isl (promise_all3 td cd rd) \<longrightarrow>
        lastFetchTime (prov_data (step q (LoadAllSettled td cd rd now))) = Some now)
   \<and> (\<not> falsy_time (lastFetchTime s) \<longrightarrow> autoRefreshRegistered s = isInitialized s)"
proof -
  let ?p = "step p InvalidateCache"
  note u = invalidated_unregistered [of p]
  have i: "isInitialized (prov_data ?p) = isInitialized (prov_data p)"
    and n: "prov_inFlight ?p = prov_inFlight p"
    by (simp_all add: invalidateCache_def)
  have 0: "lastFetchTime (prov_data ?p) = None"
    by (simp add: invalidateCache_def)
  have 1: "list_all interval_tick es \<longrightarrow> run es ?p = ?p"
    using background_idle [OF u, of es] by blast
  have 2: "isInitialized (prov_data p) \<and> list_all background es \<longrightarrow> run es ?p = ?p"
    using background_idle [OF u, of es] i by blast
  have 3: "isInitialized (prov_data p) \<and> prov_inFlight p = 0
        \<and> list_all (\<lambda>e. \<not> explicit_call e) es \<longrightarrow> run es ?p = ?p"
    using quiet_idle [OF 0, of es] i n by simp
  have 4: "lastFetchTime (prov_data q) = None \<and> lastFetchTime (prov_data (step q e)) \<noteq> None \<longrightarrow>
        successful_fetch e"
    using step_time_cases [of q e] by auto
  have 5: "0 < prov_inFlight q \<and> \<not> isl (promise_all3 td cd rd) \<longrightarrow>
        lastFetchTime (prov_data (step q (LoadAllSettled td cd rd now))) = Some now"
    using settled_load_repopulates by blast
  have 6: "\<not> falsy_time (lastFetchTime s) \<longrightarrow> autoRefreshRegistered s = isInitialized s"
    by (simp add: autoRefreshRegistered_def)
  from u 0 1 2 3 4 5 6 show ?thesis by blast
qed

theorem invalidate_stops_auto_refresh_witness:
  "list_all interval_tick [IntervalTick True 400000, IntervalTick True 460000 :: (nat, nat, nat) event]
   \<and> list_all (\<lambda>e. \<not> explicit_call e)
        [IntervalTick True 400000, CheckUser True, InvalidateCache :: (nat, nat, nat) event]
   \<and> run [InvalidateCache, IntervalTick True 400000, IntervalTick True 460000]
        (run [CheckUser True,
           LoadAllSettled (Inr (Bare [10::nat])) (Inr (Bare [20::nat])) (Inr [30::nat]) 1000]
           initial_provider)
     = \<lparr>prov_data = \<lparr>clients = [20], templates = [10], reminders = [30], loading = False,
                       lastFetchTime = None, isInitialized = True, consoleErrors = []\<rparr>,
        prov_inFlight = 0, prov_fetchSuccesses = 1\<rparr>
   \<and> run [InvalidateCache, IntervalTick True 400000, CheckUser True, InvalidateCache]
        (run [CheckUser True,
           LoadAllSettled (Inr (Bare [10::nat])) (Inr (Bare [20::nat])) (Inr [30::nat]) 1000]
           initial_provider)
     = \<lparr>prov_data = \<lparr>clients = [20], templates = [10], reminders = [30], loading = False,
                       lastFetchTime = None, isInitialized = True, consoleErrors = []\<rparr>,
        prov_inFlight = 0, prov_fetchSuccesses = 1\<rparr>"
proof -
  let ?p = "run [CheckUser True,
           LoadAllSettled (Inr (Bare [10::nat])) (Inr (Bare [20::nat])) (Inr [30::nat]) 1000]
           initial_provider"
  let ?es = "[IntervalTick True 400000, IntervalTick True 460000 :: (nat, nat, nat) event]"
  let ?fs = "[IntervalTick True 400000, CheckUser True, InvalidateCache :: (nat, nat, nat) event]"
  have h: "list_all interval_tick ?es" by simp
  have k: "list_all (\<lambda>e. \<not> explicit_call e) ?fs" by simp
  have q: "isInitialized (prov_data ?p)" "prov_inFlight ?p = 0"
    by (simp_all add: logged_in_and_loaded)
  have "run ?es (step ?p InvalidateCache) = step ?p InvalidateCache"
    using invalidate_stops_auto_refresh [of ?p ?es] h by blast
  then have a: "run (InvalidateCache # ?es) ?p = step ?p InvalidateCache"
    by (simp only: provider_simps)
  have "run ?fs (step ?p InvalidateCache) = step ?p InvalidateCache"
    using invalidate_stops_auto_refresh [of ?p ?fs] k q by blast
  then have b: "run (InvalidateCache # ?fs) ?p = step ?p InvalidateCache"
    by (simp only: provider_simps)
  show ?thesis
    unfolding a b using h k by (simp add: logged_in_and_loaded invalidateCache_def)
qed

text \<open>
  A load that the interval started is in flight when the cache is invalidated; it returns
  afterwards and fills in templates and fetch time, with no explicit call among the
  events.
\<close>

theorem invalidate_in_flight_load_counterexample:
  "lastFetchTime (prov_data (run [CheckUser True,
        LoadAllSettled (Inr (Bare [10::nat])) (Inr (Bare [20::nat])) (Inr [30::nat]) 1000,
        IntervalTick True 400000, InvalidateCache] initial_provider)) = None
   \<and> prov_inFlight (run [CheckUser True,
        LoadAllSettled (Inr (Bare [10::nat])) (Inr (Bare [20::nat])) (Inr [30::nat]) 1000,
        IntervalTick True 400000, InvalidateCache] initial_provider) = 1
   \<and> lastFetchTime (prov_data (run [CheckUser True,
        LoadAllSettled (Inr (Bare [10::nat])) (Inr (Bare [20::nat])) (Inr [30::nat]) 1000,
        IntervalTick True 400000, InvalidateCache,
        LoadAllSettled (Inr (Bare [11])) (Inr (Bare [21])) (Inr [31]) 400500]
        initial_provider)) = Some 400500
   \<and> templates (prov_data (run [CheckUser True,
        LoadAllSettled (Inr (Bare [10::nat])) (Inr (Bare [20::nat])) (Inr [30::nat]) 1000,
        IntervalTick True 400000, InvalidateCache,
        LoadAllSettled (Inr (Bare [11])) (Inr (Bare [21])) (Inr [31]) 400500]
        initial_provider)) = [11]
   \<and> list_all (\<lambda>e. \<not> explicit_call e) [CheckUser True,
        LoadAllSettled (Inr (Bare [10::nat])) (Inr (Bare [20::nat])) (Inr [30::nat]) 1000,
        IntervalTick True 400000, InvalidateCache,
        LoadAllSettled (Inr (Bare [11])) (Inr (Bare [21])) (Inr [31]) 400500]"
  by (simp add: provider_simps checkUser_def loadAllData_begin_def loadAllData_end_def
      loadAllData_after_await_def initial_provider_def initial_data_def Let_def
      autoRefreshTick_def autoRefreshRegistered_def invalidateCache_def
      isStale_def isStale_with_def CACHE_DURATION_def)

end
